theory Spec2Isabelle
  imports Main "HOL-Library.AList"
begin

section \<open>Errors raised by the Python code\<close>

text \<open>
  Every exception the modelled functions can raise is a constructor; a function that may
  raise returns \<open>py_error + 'a\<close> with \<open>Inl\<close> for the exception.
\<close>

datatype py_error =
    TypeError
  | ValueError
  | IndexError
  | KeyError
  | AssertionError
  | UnboundLocalError
  | IOError
  | ExternalFailure

section \<open>Python string primitives used by the code\<close>

definition TAB :: char where
  "TAB = CHR 0x09"

definition NL :: char where
  "NL = CHR 0x0A"

text \<open>\<open>s.split(sep, maxsplit)\<close> for a one-character separator.\<close>

fun split_from :: "char \<Rightarrow> nat \<Rightarrow> string \<Rightarrow> string \<Rightarrow> string list" where
  "split_from sep n cur [] = [cur]"
| "split_from sep n cur (c # cs) =
     (if c = sep \<and> 0 < n then cur # split_from sep (n - 1) [] cs
      else split_from sep n (cur @ [c]) cs)"

definition py_split :: "string \<Rightarrow> char \<Rightarrow> nat \<Rightarrow> string list" where
  "py_split s sep maxsplit = split_from sep maxsplit [] s"

text \<open>The characters \<open>str.strip()\<close> and \<open>int()\<close> treat as white space.\<close>

definition is_space :: "char \<Rightarrow> bool" where
  "is_space c = (c \<in> set [CHR 0x20, CHR 0x09, CHR 0x0A, CHR 0x0B, CHR 0x0C, CHR 0x0D])"

definition py_strip :: "string \<Rightarrow> string" where
  "py_strip s = rev (dropWhile is_space (rev (dropWhile is_space s)))"

definition digit_val :: "char \<Rightarrow> nat option" where
  "digit_val c =
     (let n = (of_char c :: nat) in if 48 \<le> n \<and> n \<le> 57 then Some (n - 48) else None)"

fun digits_val :: "nat \<Rightarrow> string \<Rightarrow> nat option" where
  "digits_val acc [] = Some acc"
| "digits_val acc (c # cs) =
     (case digit_val c of None \<Rightarrow> None | Some d \<Rightarrow> digits_val (10 * acc + d) cs)"

text \<open>
  \<open>int(s)\<close> in base ten: surrounding white space is ignored, one sign is allowed, at
  least one digit is required; anything else raises \<open>ValueError\<close> (here \<open>None\<close>).
\<close>

definition py_int :: "string \<Rightarrow> int option" where
  "py_int s =
     (case py_strip s of
        [] \<Rightarrow> None
      | c # cs \<Rightarrow>
          (if c = CHR ''-'' then
             (if cs = [] then None else map_option (\<lambda>n. - int n) (digits_val 0 cs))
           else if c = CHR ''+'' then
             (if cs = [] then None else map_option int (digits_val 0 cs))
           else map_option int (digits_val 0 (c # cs))))"

section \<open>Interval overlap removal (\<open>purecn._remove_overlaps\<close>)\<close>

text \<open>
  \<open>a, b, c = line.split("\t", 4)[:3]\<close>: the first three tab-separated fields; the
  unpacking raises \<open>ValueError\<close> when there are fewer than three.
\<close>

definition fields3 :: "string \<Rightarrow> py_error + (string \<times> string \<times> string)" where
  "fields3 line =
     (case take 3 (py_split line TAB 4) of
        [a, b, c] \<Rightarrow> Inr (a, b, c)
      | _ \<Rightarrow> Inl ValueError)"

text \<open>
  The test \<open>pchrom == cchrom and int(pend) > int(cstart)\<close>. The conjunction is
  short-circuit: the two \<open>int\<close> conversions run only when the chromosomes agree, first
  the pending line's end, then the current line's start.
\<close>

definition overlap_test :: "string \<Rightarrow> string \<Rightarrow> py_error + bool" where
  "overlap_test prev_line line =
     (case fields3 prev_line of
        Inl e \<Rightarrow> Inl e
      | Inr (pchrom, pstart, pend) \<Rightarrow>
          (case fields3 line of
             Inl e \<Rightarrow> Inl e
           | Inr (cchrom, cstart, cend) \<Rightarrow>
               (if pchrom = cchrom then
                  (case py_int pend of
                     None \<Rightarrow> Inl ValueError
                   | Some pe \<Rightarrow>
                       (case py_int cstart of
                          None \<Rightarrow> Inl ValueError
                        | Some cs \<Rightarrow> Inr (cs < pe)))
                else Inr False)))"

text \<open>
  The body of the two \<open>with open\<close> blocks: \<open>prev_line\<close> starts as \<open>None\<close>; the
  loop runs over the lines of the input; \<open>written\<close> collects what has been passed to
  \<open>out_handle.write\<close>. \<open>if prev_line:\<close> is Python truthiness, false for \<open>None\<close> and
  for the empty string. After the loop \<open>out_handle.write(prev_line)\<close> runs
  unconditionally, and \<open>write(None)\<close> raises \<open>TypeError\<close>.
\<close>

fun overlaps_loop :: "string option \<Rightarrow> string list \<Rightarrow> string list \<Rightarrow> py_error + string list" where
  "overlaps_loop prev_line [] written =
     (case prev_line of None \<Rightarrow> Inl TypeError | Some p \<Rightarrow> Inr (written @ [p]))"
| "overlaps_loop prev_line (line # rest) written =
     (case prev_line of
        None \<Rightarrow> overlaps_loop (Some line) rest written
      | Some p \<Rightarrow>
          (if p = [] then overlaps_loop (Some line) rest written
           else
             (case overlap_test p line of
                Inl e \<Rightarrow> Inl e
              | Inr True \<Rightarrow> overlaps_loop (Some line) rest written
              | Inr False \<Rightarrow> overlaps_loop (Some line) rest (written @ [p]))))"

definition remove_overlaps_lines :: "string list \<Rightarrow> py_error + string list" where
  "remove_overlaps_lines in_lines = overlaps_loop None in_lines []"

section \<open>The sample records (\<open>ensemble.py\<close>)\<close>

text \<open>
  A Python value that is either \<open>None\<close> or a path string. A dictionary key that may be
  missing is an \<open>option\<close> around the value: \<open>None\<close> there means that the key is absent.
\<close>

datatype pyfile = PyNone | Path string

text \<open>
  One element of \<open>data["variants"]\<close>: the per-caller result, and also the ensemble
  result that \<open>combine_calls\<close> builds (\<open>bed_file\<close>, \<open>validate\<close>).
\<close>

record call_result =
  variantcaller :: string
  vrn_file :: "pyfile option"
  vrn_file_batch :: "pyfile option"
  bed_file :: "pyfile option"
  validate :: "string option option"

record metadata =
  batch :: "string option"
  phenotype :: "string option"

text \<open>\<open>data["config"]["algorithm"]["ensemble"]\<close>; only the key \<open>caller\<close> is read.\<close>

record ensemble_config =
  caller :: "string option"

text \<open>
  The sample dictionary \<open>data\<close>, with the keys the two modules read: \<open>name\<close> is the
  sequence \<open>data["name"]\<close>; \<open>algorithm_ensemble\<close> is \<open>None\<close> when \<open>"ensemble"\<close> is not a
  key of \<open>data["config"]["algorithm"]\<close>.
\<close>

record sample =
  name :: "string list"
  metadata :: "metadata option"
  variants :: "call_result list"
  work_bam :: "pyfile option"
  algorithm_ensemble :: "ensemble_config option"
  num_cores :: "nat option"
  dirs_work :: string
  sam_ref :: string

subsection \<open>\<open>_has_ensemble\<close>\<close>

definition is_not_none :: "pyfile option \<Rightarrow> bool" where
  \<comment> \<open>\<open>x.get(key, None) is not None\<close>\<close>
  "is_not_none v = (case v of None \<Rightarrow> False | Some PyNone \<Rightarrow> False | Some (Path p) \<Rightarrow> True)"

definition has_ensemble :: "sample \<Rightarrow> bool" where
  "has_ensemble data =
     (let variants_to_process =
            (if 1 < length (variants data) \<and>
                list_ex (\<lambda>x. is_not_none (vrn_file x) \<or> is_not_none (vrn_file_batch x))
                  (variants data)
             then True else False)
      in variants_to_process \<and> algorithm_ensemble data \<noteq> None)"

subsection \<open>\<open>_group_by_batches\<close>\<close>

text \<open>
  The sample dictionaries are mutable objects that \<open>combine_calls_parallel\<close> later updates
  in place, so a sample is held by reference: a \<open>ref\<close> is the identity of one dictionary
  and the heap gives its current value. \<open>batch_groups\<close> is a \<open>defaultdict(list)\<close>: an
  association list in insertion order, where reading a missing key gives \<open>[]\<close>.
\<close>

type_synonym ref = nat
type_synonym heap = "ref \<Rightarrow> sample"
type_synonym batch_groups = "(string \<times> ref list) list"

definition groups_get :: "batch_groups \<Rightarrow> string \<Rightarrow> ref list" where
  "groups_get bg k = (case map_of bg k of None \<Rightarrow> [] | Some xs \<Rightarrow> xs)"

text \<open>\<open>[x[0] for x in samples]\<close>: an empty element raises \<open>IndexError\<close>.\<close>

fun first_items :: "ref list list \<Rightarrow> py_error + ref list" where
  "first_items [] = Inr []"
| "first_items (x # xs) =
     (case x of
        [] \<Rightarrow> Inl IndexError
      | d # _ \<Rightarrow> (case first_items xs of Inl e \<Rightarrow> Inl e | Inr ds \<Rightarrow> Inr (d # ds)))"

text \<open>\<open>data.get("metadata", {}).get("batch")\<close>\<close>

definition batch_of :: "sample \<Rightarrow> string option" where
  "batch_of data = (case metadata data of None \<Rightarrow> None | Some m \<Rightarrow> batch m)"

text \<open>\<open>data["name"][-1]\<close>\<close>

definition name_last :: "sample \<Rightarrow> py_error + string" where
  "name_last data = (if name data = [] then Inl IndexError else Inr (last (name data)))"

text \<open>
  The loop over the samples. \<open>if batch:\<close> is truthiness: \<open>None\<close> and the empty string
  take the \<open>else\<close> branch.
\<close>

fun group_loop ::
  "heap \<Rightarrow> (sample \<Rightarrow> bool) \<Rightarrow> ref list \<Rightarrow> batch_groups \<Rightarrow> ref list list \<Rightarrow>
   py_error + (batch_groups \<times> ref list list)" where
  "group_loop h check_fn [] bg extras = Inr (bg, extras)"
| "group_loop h check_fn (d # rest) bg extras =
     (if check_fn (h d) then
        (case batch_of (h d) of
           Some (c # cs) \<Rightarrow>
             group_loop h check_fn rest
               (AList.update (c # cs) (groups_get bg (c # cs) @ [d]) bg) extras
         | _ \<Rightarrow>
             (case name_last (h d) of
                Inl e \<Rightarrow> Inl e
              | Inr k \<Rightarrow>
                  (if map_of bg k \<noteq> None then Inl AssertionError
                   else group_loop h check_fn rest (AList.update k [d] bg) extras)))
      else group_loop h check_fn rest bg (extras @ [[d]]))"

definition group_by_batches ::
  "heap \<Rightarrow> ref list list \<Rightarrow> (sample \<Rightarrow> bool) \<Rightarrow> py_error + (batch_groups \<times> ref list list)" where
  "group_by_batches h samples check_fn =
     (case first_items samples of
        Inl e \<Rightarrow> Inl e
      | Inr ds \<Rightarrow> group_loop h check_fn ds [] [])"

subsection \<open>\<open>combine_calls_parallel\<close>\<close>






section \<open>External steps, the filesystem and the state they act on\<close>

text \<open>
  The functions below read the filesystem and start external programs. The state is the
  filesystem (for each path, whether a file is there, with its modification time and
  size) and the trace of the external steps started so far, in order. A computation
  returns its result or the exception raised, and always the state reached.
\<close>

record file_meta =
  mtime :: nat
  fsize :: nat

type_synonym filesystem = "string \<Rightarrow> file_meta option"

datatype event =
    Makedir string
  | SelectSample string string string
  | MultisampleVcf "pyfile list" string string
  | WriteYaml string "string list" "string option"
  | DoRun "pyfile list"
  | SymlinkPlus string string
  | WriteEmptyVcf string
  | SnpeffEffects string
  | CompareToRm "pyfile option"

record world =
  files :: filesystem
  trace :: "event list"

type_synonym 'a prog = "world \<Rightarrow> (py_error + 'a) \<times> world"

definition ret :: "'a \<Rightarrow> 'a prog" where
  "ret x w = (Inr x, w)"

definition throw :: "py_error \<Rightarrow> 'a prog" where
  "throw e w = (Inl e, w)"

definition then_do :: "'a prog \<Rightarrow> ('a \<Rightarrow> 'b prog) \<Rightarrow> 'b prog" where
  "then_do m f w = (case m w of (Inl e, w') \<Rightarrow> (Inl e, w') | (Inr x, w') \<Rightarrow> f x w')"

definition with_files :: "(filesystem \<Rightarrow> 'a prog) \<Rightarrow> 'a prog" where
  "with_files f w = f (files w) w"

text \<open>
  What lies outside the two modules is a parameter: the effect of each external step on
  the filesystem (\<open>None\<close> when the step fails, which raises), and the values the helper
  functions of other modules return.
\<close>

record env =
  effect :: "event \<Rightarrow> filesystem \<Rightarrow> filesystem option"
  vcf_has_variants :: "filesystem \<Rightarrow> pyfile \<Rightarrow> bool"
  glob :: "filesystem \<Rightarrow> string \<Rightarrow> string list"
  multisample_vcf :: "pyfile list \<Rightarrow> string \<Rightarrow> string \<Rightarrow> string"
  snpeff_vcf :: "string \<Rightarrow> pyfile"
  validate_summary :: "filesystem \<Rightarrow> pyfile option \<Rightarrow> string option"
  get_program :: "string \<Rightarrow> string"
  get_jar :: "string \<Rightarrow> string \<Rightarrow> string"
  jvm_opts :: "string list option"
  analysis_intervals :: "sample \<Rightarrow> string option"
  abspath :: "string \<Rightarrow> string"

text \<open>An external step: it is recorded in the trace, then succeeds or raises.\<close>

definition external :: "env \<Rightarrow> event \<Rightarrow> unit prog" where
  "external E ev w =
     (case effect E ev (files w) of
        None \<Rightarrow> (Inl ExternalFailure, w\<lparr>trace := trace w @ [ev]\<rparr>)
      | Some fs \<Rightarrow> (Inr (), \<lparr>files = fs, trace = trace w @ [ev]\<rparr>))"

text \<open>
  Modelled from the spec: \<open>utils.file_exists\<close> is not under src/; section 6 has
  "existence and non-emptiness checks only". \<open>os.path.exists\<close> is plain existence.
\<close>

definition file_exists :: "filesystem \<Rightarrow> string \<Rightarrow> bool" where
  "file_exists fs p = (case fs p of None \<Rightarrow> False | Some m \<Rightarrow> 0 < fsize m)"

definition path_exists :: "filesystem \<Rightarrow> string \<Rightarrow> bool" where
  "path_exists fs p = (fs p \<noteq> None)"

text \<open>
  Modelled from the spec: \<open>utils.safe_makedir\<close>, \<open>utils.symlink_plus\<close>,
  \<open>vcfutils.select_sample\<close>, \<open>population.get_multisample_vcf\<close>,
  \<open>vcfutils.write_empty_vcf\<close>, \<open>effects.snpeff_effects\<close> and \<open>validate.compare_to_rm\<close>
  are not under src/. Each is one external step. \<open>safe_makedir\<close> returns the directory
  (section 4.1, "creates parent directories ... on demand"); \<open>select_sample\<close> returns the
  filtered file it was asked to produce (section 4.4, "a new filtered file ... substituted
  in place of the original"); \<open>get_multisample_vcf\<close> returns the merged file, a function
  of the files, batch and caller (section 4.4, "keyed by caller name and batch
  identifier").
\<close>

definition safe_makedir :: "env \<Rightarrow> string \<Rightarrow> string prog" where
  "safe_makedir E d = then_do (external E (Makedir d)) (\<lambda>_. ret d)"

definition symlink_plus :: "env \<Rightarrow> string \<Rightarrow> string \<Rightarrow> unit prog" where
  "symlink_plus E orig new = external E (SymlinkPlus orig new)"

definition select_sample :: "env \<Rightarrow> string \<Rightarrow> string \<Rightarrow> string \<Rightarrow> string prog" where
  "select_sample E in_file sample_name out_file =
     then_do (external E (SelectSample in_file sample_name out_file)) (\<lambda>_. ret out_file)"

definition get_multisample_vcf :: "env \<Rightarrow> pyfile list \<Rightarrow> string \<Rightarrow> string \<Rightarrow> string prog" where
  "get_multisample_vcf E fnames batch_id caller_name =
     then_do (external E (MultisampleVcf fnames batch_id caller_name))
       (\<lambda>_. ret (multisample_vcf E fnames batch_id caller_name))"




subsection \<open>More string and path primitives\<close>

text \<open>\<open>sub in s\<close> and \<open>s.startswith(p)\<close>\<close>

fun contains :: "string \<Rightarrow> string \<Rightarrow> bool" where
  "contains sub [] = (sub = [])"
| "contains sub (c # cs) = (take (length sub) (c # cs) = sub \<or> contains sub cs)"

definition startswith :: "string \<Rightarrow> string \<Rightarrow> bool" where
  "startswith s p = (take (length p) s = p)"

text \<open>\<open>s.lower()\<close> on the ASCII letters\<close>

definition lower_char :: "char \<Rightarrow> char" where
  "lower_char c =
     (let n = (of_char c :: nat) in if 65 \<le> n \<and> n \<le> 90 then char_of (n + 32) else c)"

definition py_lower :: "string \<Rightarrow> string" where
  "py_lower s = map lower_char s"

text \<open>
  \<open>s.replace(old, new)\<close> for a non-empty \<open>old\<close>: every occurrence, left to right, without
  overlap. \<open>skip\<close> counts the characters of a match still to be passed over.
\<close>

fun replace_from :: "string \<Rightarrow> string \<Rightarrow> nat \<Rightarrow> string \<Rightarrow> string" where
  "replace_from old new skip [] = []"
| "replace_from old new skip (c # cs) =
     (if 0 < skip then replace_from old new (skip - 1) cs
      else if take (length old) (c # cs) = old
        then new @ replace_from old new (length old - 1) cs
      else c # replace_from old new 0 cs)"

definition py_replace :: "string \<Rightarrow> string \<Rightarrow> string \<Rightarrow> string" where
  "py_replace s old new = replace_from old new 0 s"

text \<open>\<open>os.path.join(a, b)\<close> and \<open>os.path.splitext(p)[0]\<close> (POSIX)\<close>

definition py_join :: "string \<Rightarrow> string \<Rightarrow> string" where
  "py_join a b =
     (if b \<noteq> [] \<and> hd b = CHR ''/'' then b
      else if a = [] \<or> last a = CHR ''/'' then a @ b
      else a @ ''/'' @ b)"

definition splitext_root :: "string \<Rightarrow> string" where
  "splitext_root p =
     (let base = rev (takeWhile (\<lambda>c. c \<noteq> CHR ''/'') (rev p));
          dir = take (length p - length base) p;
          stem = rev (drop 1 (dropWhile (\<lambda>c. c \<noteq> CHR ''.'') (rev base)))
      in if CHR ''.'' \<in> set base \<and> (\<exists>c \<in> set stem. c \<noteq> CHR ''.'') then dir @ stem else p)"



section \<open>The multi-caller merger (\<open>_organize_variants\<close>)\<close>

text \<open>
  \<open>data.get("metadata", False) and
  data["metadata"].get("phenotype", "normal").lower().startswith("tumor")\<close>
\<close>

definition is_tumor :: "sample \<Rightarrow> bool" where
  "is_tumor data =
     (case metadata data of
        None \<Rightarrow> False
      | Some m \<Rightarrow>
          startswith (py_lower (case phenotype m of None \<Rightarrow> ''normal'' | Some p \<Rightarrow> p)) ''tumor'')"

text \<open>
  The local variables the two nested loops update: the set \<open>bam_files\<close> (kept as a list without
  repetition, in the order of first addition; Python leaves the order of \<open>list(bam_files)\<close>
  open), the dictionary \<open>calls\<close> from caller name to files
  (a \<open>defaultdict(list)\<close>), and \<open>vrn_file_temp\<close>, which is a local of the whole function:
  unbound (\<open>None\<close>) until its first assignment and kept from one iteration to the next.
\<close>

record organize_state =
  bam_files :: "pyfile list"
  calls :: "(string \<times> pyfile list) list"
  vrn_file_temp :: "string option"

definition calls_get :: "(string \<times> pyfile list) list \<Rightarrow> string \<Rightarrow> pyfile list" where
  "calls_get cs k = (case map_of cs k of None \<Rightarrow> [] | Some fs \<Rightarrow> fs)"

text \<open>
  The right-hand side of the assignment to \<open>vrn_file_temp\<close>. The condition
  \<open>".vcf" in vrn_file\<close> is evaluated first and raises \<open>TypeError\<close> on \<open>None\<close>; the
  \<open>else\<close> operand reads \<open>vrn_file_temp\<close> itself, which raises \<open>UnboundLocalError\<close>
  while it has never been assigned.
\<close>

definition tumor_only_name :: "pyfile \<Rightarrow> string option \<Rightarrow> py_error + string" where
  "tumor_only_name f temp =
     (case f of
        PyNone \<Rightarrow> Inl TypeError
      | Path p \<Rightarrow>
          (if contains ''.vcf'' p
           then Inr (py_replace p ''.vcf'' ''_tumorOnly_noFilteredCalls.vcf'')
           else (case temp of
                   None \<Rightarrow> Inl UnboundLocalError
                 | Some t \<Rightarrow> Inr (t @ ''_tumorOnly_noFilteredCalls.vcf.gz''))))"

text \<open>
  The body of the inner loop for one element \<open>vrn\<close> of \<open>data["variants"]\<close>:
  \<open>vrn["vrn_file"]\<close> raises \<open>KeyError\<close> when the key is absent; for a tumor sample the
  file is replaced by the output of \<open>select_sample\<close> on \<open>data["name"][1]\<close>; the file is
  appended to \<open>calls[vrn["variantcaller"]]\<close>.
\<close>

definition organize_variant :: "env \<Rightarrow> sample \<Rightarrow> call_result \<Rightarrow> organize_state \<Rightarrow> organize_state prog" where
  "organize_variant E data vrn st =
     (case vrn_file vrn of
        None \<Rightarrow> throw KeyError
      | Some f \<Rightarrow>
          then_do
            (if is_tumor data then
               (case tumor_only_name f (vrn_file_temp st) of
                  Inl e \<Rightarrow> throw e
                | Inr t \<Rightarrow>
                    (if length (name data) < 2 then throw IndexError
                     else
                       (case f of
                          PyNone \<Rightarrow> throw TypeError
                        | Path p \<Rightarrow>
                            then_do (select_sample E p (name data ! 1) t)
                              (\<lambda>out. ret (Path out, Some t)))))
             else ret (f, vrn_file_temp st))
            (\<lambda>(f', temp).
               ret (st\<lparr>calls := AList.update (variantcaller vrn)
                                  (calls_get (calls st) (variantcaller vrn) @ [f']) (calls st),
                        vrn_file_temp := temp\<rparr>)))"

fun organize_variants_loop ::
  "env \<Rightarrow> sample \<Rightarrow> call_result list \<Rightarrow> organize_state \<Rightarrow> organize_state prog" where
  "organize_variants_loop E data [] st w = (Inr st, w)"
| "organize_variants_loop E data (vrn # rest) st w =
     (case organize_variant E data vrn st w of
        (Inl e, w') \<Rightarrow> (Inl e, w')
      | (Inr st', w') \<Rightarrow> organize_variants_loop E data rest st' w')"

text \<open>The outer loop \<open>for data in samples\<close>.\<close>

definition add_bam :: "sample \<Rightarrow> organize_state \<Rightarrow> organize_state" where
  "add_bam data st =
     (case work_bam data of
        None \<Rightarrow> st
      | Some b \<Rightarrow> (if b \<in> set (bam_files st) then st else st\<lparr>bam_files := bam_files st @ [b]\<rparr>))"

fun organize_samples_loop :: "env \<Rightarrow> sample list \<Rightarrow> organize_state \<Rightarrow> organize_state prog" where
  "organize_samples_loop E [] st w = (Inr st, w)"
| "organize_samples_loop E (data # rest) st w =
     (case organize_variants_loop E data (variants data) (add_bam data st) w of
        (Inl e, w') \<Rightarrow> (Inl e, w')
      | (Inr st', w') \<Rightarrow> organize_samples_loop E rest st' w')"

text \<open>
  The last loop, \<open>for caller in caller_names\<close>: a caller with exactly one file keeps it,
  any other number of files goes to \<open>get_multisample_vcf\<close>.
\<close>

fun representatives_loop ::
  "env \<Rightarrow> (string \<times> pyfile list) list \<Rightarrow> string \<Rightarrow> string list \<Rightarrow> pyfile list \<Rightarrow> pyfile list prog" where
  "representatives_loop E cs batch_id [] vrn_files w = (Inr vrn_files, w)"
| "representatives_loop E cs batch_id (c # rest) vrn_files w =
     (case calls_get cs c of
        [f] \<Rightarrow> representatives_loop E cs batch_id rest (vrn_files @ [f]) w
      | fnames \<Rightarrow>
          (case get_multisample_vcf E fnames batch_id c w of
             (Inl e, w') \<Rightarrow> (Inl e, w')
           | (Inr merged, w') \<Rightarrow>
               representatives_loop E cs batch_id rest (vrn_files @ [Path merged]) w'))"

text \<open>
  \<open>_organize_variants(samples, batch_id)\<close>: \<open>samples[0]\<close> raises \<open>IndexError\<close> on an empty
  batch. The result is \<open>(caller_names, vrn_files, list(bam_files))\<close>.
\<close>

definition organize_variants ::
  "env \<Rightarrow> sample list \<Rightarrow> string \<Rightarrow> (string list \<times> pyfile list \<times> pyfile list) prog" where
  "organize_variants E samples batch_id =
     (case samples of
        [] \<Rightarrow> throw IndexError
      | first # _ \<Rightarrow>
          (let caller_names = map variantcaller (variants first) in
           then_do (organize_samples_loop E samples
                      \<lparr>bam_files = [], calls = [], vrn_file_temp = None\<rparr>)
             (\<lambda>st. then_do (representatives_loop E (calls st) batch_id caller_names [])
                (\<lambda>vrn_files. ret (caller_names, vrn_files, bam_files st)))))"

section \<open>The consensus builder\<close>

subsection \<open>\<open>_bcbio_variation_ensemble\<close>\<close>

definition bcbio_variation_ensemble ::
  "env \<Rightarrow> pyfile list \<Rightarrow> string \<Rightarrow> string \<Rightarrow> string \<Rightarrow> string \<Rightarrow> unit prog" where
  "bcbio_variation_ensemble E vrn_files out_file ref_file config_file base_dir =
     then_do (safe_makedir E (py_join base_dir ''tmp''))
       (\<lambda>tmp_dir.
          (let bv_jar = get_jar E ''bcbio.variation'' (get_program E ''bcbio_variation'');
               opts = (case jvm_opts E of None \<Rightarrow> [''-Xms750m'', ''-Xmx2g''] | Some os \<Rightarrow> os);
               java_args = [''-Djava.io.tmpdir='' @ tmp_dir];
               cmd = map Path ([''java''] @ opts @ java_args @
                        [''-jar'', bv_jar, ''variant-ensemble'', config_file, ref_file, out_file])
                     @ vrn_files
           in external E (DoRun cmd)))"

subsection \<open>\<open>_run_ensemble\<close>\<close>

definition ensemble_vcf :: "string \<Rightarrow> string \<Rightarrow> string" where
  \<comment> \<open>\<open>os.path.join(base_dir, "{0}-ensemble.vcf".format(batch_id))\<close>\<close>
  "ensemble_vcf base_dir batch_id = py_join base_dir (batch_id @ ''-ensemble.vcf'')"

definition run_ensemble ::
  "env \<Rightarrow> string \<Rightarrow> pyfile list \<Rightarrow> string \<Rightarrow> string \<Rightarrow> string \<Rightarrow> call_result prog" where
  "run_ensemble E batch_id vrn_files config_file base_dir ref_file =
     (let out_vcf_file = ensemble_vcf base_dir batch_id;
          out_bed_file = py_join base_dir (batch_id @ ''-callregions.bed'');
          work_dir = splitext_root out_vcf_file @ ''-work''
      in
      then_do
        (with_files (\<lambda>fs.
           if \<not> file_exists fs out_vcf_file then
             then_do (bcbio_variation_ensemble E vrn_files out_vcf_file ref_file config_file base_dir)
               (\<lambda>_. with_files (\<lambda>fs'.
                  if \<not> file_exists fs' out_vcf_file then
                    (case glob E fs' (py_join (py_join work_dir ''prep'') ''*-cfilter.vcf'') of
                       [] \<Rightarrow> throw IndexError
                     | base_vcf # _ \<Rightarrow> symlink_plus E base_vcf out_vcf_file)
                  else ret ()))
           else ret ()))
        (\<lambda>_. then_do
           (with_files (\<lambda>fs.
              if \<not> file_exists fs out_bed_file then
                (case glob E fs (py_join (py_join work_dir ''prep'') ''*-multicombine.bed'') of
                   [] \<Rightarrow> ret ()
                 | multi_bed # _ \<Rightarrow> symlink_plus E multi_bed out_bed_file)
              else ret ()))
           (\<lambda>_. with_files (\<lambda>fs.
              ret \<lparr>variantcaller = ''ensemble'', vrn_file = Some (Path out_vcf_file),
                   vrn_file_batch = None,
                   bed_file = Some (if path_exists fs out_bed_file then Path out_bed_file else PyNone),
                   validate = None\<rparr>))))"

subsection \<open>\<open>_write_config_file\<close>\<close>


subsection \<open>\<open>_run_ensemble_w_caller\<close>\<close>


subsection \<open>\<open>combine_calls\<close>\<close>


section \<open>The interval overlap resolver as the specification words it\<close>

text \<open>
  The record a line stands for: chromosome, start and end, the two numbers read as
  \<open>int\<close> does.
\<close>

definition parse_interval :: "string \<Rightarrow> (string \<times> int \<times> int) option" where
  "parse_interval line =
     (case fields3 line of
        Inl e \<Rightarrow> None
      | Inr (c, s, e) \<Rightarrow>
          (case py_int s of
             None \<Rightarrow> None
           | Some si \<Rightarrow> (case py_int e of None \<Rightarrow> None | Some ei \<Rightarrow> Some (c, si, ei))))"

text \<open>
  The scan of the specification, over any kind of record with its interval: one pending
  record is held; an incoming record on the same chromosome with \<open>pending.end >
  incoming.start\<close> replaces the pending one, which is dropped; otherwise the pending
  record is emitted and the incoming one becomes pending; the last pending record is
  emitted.
\<close>

definition spec_overlap :: "(string \<times> int \<times> int) \<Rightarrow> (string \<times> int \<times> int) \<Rightarrow> bool" where
  "spec_overlap pending incoming =
     (fst pending = fst incoming \<and> fst (snd incoming) < snd (snd pending))"

fun resolver_spec :: "('a \<Rightarrow> string \<times> int \<times> int) \<Rightarrow> 'a \<Rightarrow> 'a list \<Rightarrow> 'a list" where
  "resolver_spec iv pending [] = [pending]"
| "resolver_spec iv pending (incoming # rest) =
     (if spec_overlap (iv pending) (iv incoming) then resolver_spec iv incoming rest
      else pending # resolver_spec iv incoming rest)"

text \<open>The three lines of the specification's example.\<close>

definition bed_line :: "string \<Rightarrow> string \<Rightarrow> string \<Rightarrow> string" where
  "bed_line c s e = c @ [TAB] @ s @ [TAB] @ e @ [NL]"

section \<open>Notions used to state the grouping properties\<close>

text \<open>
  The batch-membership tag of a sample as the grouping loop reads it: a non-empty
  \<open>metadata.batch\<close>. The key a qualifying sample is grouped under is its tag, or else its
  own identity \<open>data["name"][-1]\<close>.
\<close>

definition tag_of :: "sample \<Rightarrow> string option" where
  "tag_of data = (case batch_of data of Some (c # cs) \<Rightarrow> Some (c # cs) | _ \<Rightarrow> None)"

definition batch_key :: "sample \<Rightarrow> py_error + string" where
  "batch_key data = (case tag_of data of Some b \<Rightarrow> Inr b | None \<Rightarrow> name_last data)"

text \<open>Concrete samples for the examples: a heap holding the listed samples at 0, 1, ...\<close>

definition blank_sample :: sample where
  "blank_sample = \<lparr>name = [], metadata = None, variants = [], work_bam = None,
     algorithm_ensemble = None, num_cores = None, dirs_work = [], sam_ref = []\<rparr>"

definition heap_of :: "sample list \<Rightarrow> heap" where
  "heap_of xs r = (if r < length xs then xs ! r else blank_sample)"

definition call_of :: "string \<Rightarrow> string \<Rightarrow> call_result" where
  "call_of c f = \<lparr>variantcaller = c, vrn_file = Some (Path f), vrn_file_batch = None,
     bed_file = None, validate = None\<rparr>"

text \<open>
  A sample with the given name, batch tag and per-caller results, and with
  \<open>ensemble\<close> configured.
\<close>

definition sample_of :: "string \<Rightarrow> string option \<Rightarrow> string option \<Rightarrow> call_result list \<Rightarrow> sample" where
  "sample_of n b ph vs = \<lparr>name = [''lane'', n],
     metadata = Some \<lparr>batch = b, phenotype = ph\<rparr>, variants = vs,
     work_bam = Some (Path (n @ ''.bam'')),
     algorithm_ensemble = Some \<lparr>caller = None\<rparr>, num_cores = None,
     dirs_work = ''work'', sam_ref = ''ref.fa''\<rparr>"

text \<open>The results of two callers for the sample named \<open>n\<close>.\<close>

definition two_calls :: "string \<Rightarrow> call_result list" where
  "two_calls n = [call_of ''gatk'' (n @ ''-gatk.vcf''), call_of ''freebayes'' (n @ ''-freebayes.vcf'')]"


text \<open>
  A sample C without a tag and a sample A whose batch tag is \<open>C\<close>, in the two orders.
\<close>

definition clash_first_heap :: heap where
  "clash_first_heap = heap_of [sample_of ''C'' None None (two_calls ''C''),
                               sample_of ''A'' (Some ''C'') None (two_calls ''A'')]"

definition clash_later_heap :: heap where
  "clash_later_heap = heap_of [sample_of ''A'' (Some ''C'') None (two_calls ''A''),
                               sample_of ''C'' None None (two_calls ''C'')]"

text \<open>A batch in which the second sample has the result of one caller only.\<close>

definition one_call_heap :: heap where
  "one_call_heap = heap_of [sample_of ''A'' (Some ''fam1'') None (two_calls ''A''),
                       sample_of ''B'' (Some ''fam1'') None [call_of ''gatk'' ''B-gatk.vcf'']]"



section \<open>Notions used to state the merger and consensus properties\<close>






definition is_do_run :: "event \<Rightarrow> bool" where
  "is_do_run ev = (case ev of DoRun cmd \<Rightarrow> True | _ \<Rightarrow> False)"

text \<open>
  An environment for the examples: every external step succeeds and leaves the files as
  they are, no file has variants, and the helper functions return fixed names.
\<close>

definition quiet_env :: env where
  "quiet_env = \<lparr>effect = (\<lambda>ev fs. Some fs), vcf_has_variants = (\<lambda>fs f. False),
     glob = (\<lambda>fs pat. []),
     multisample_vcf = (\<lambda>fnames b c. ''work/gemini/'' @ b @ ''-'' @ c @ ''.vcf.gz''),
     snpeff_vcf = (\<lambda>f. Path f), validate_summary = (\<lambda>fs f. None),
     get_program = (\<lambda>p. p), get_jar = (\<lambda>n d. n @ ''.jar''), jvm_opts = None,
     analysis_intervals = (\<lambda>d. None), abspath = (\<lambda>p. p)\<rparr>"

definition no_files :: world where
  "no_files = \<lparr>files = (\<lambda>p. None), trace = []\<rparr>"

text \<open>
  A tumor sample whose first result is a \<open>.vcf\<close> file and whose second is not, and a
  tumor sample whose only results are not \<open>.vcf\<close> files.
\<close>

definition tumor_mixed :: sample where
  "tumor_mixed = sample_of ''T'' (Some ''pair1'') (Some ''tumor'')
     [call_of ''gatk'' ''T-gatk.vcf'', call_of ''freebayes'' ''T-freebayes.bcf'']"

definition tumor_bcf :: sample where
  "tumor_bcf = sample_of ''T'' (Some ''pair1'') (Some ''tumor'')
     [call_of ''freebayes'' ''T-freebayes.bcf'', call_of ''gatk'' ''T-gatk.vcf'']"




text \<open>A computation that only adds to the trace of external steps.\<close>

definition extends_trace :: "'a prog \<Rightarrow> bool" where
  "extends_trace p = (\<forall>w. \<exists>new. trace (snd (p w)) = trace w @ new)"

section \<open>Properties of the interval overlap resolver\<close>

lemma overlap_test_parsed:
  assumes "parse_interval p = Some a" "parse_interval l = Some b"
  shows "overlap_test p l = Inr (spec_overlap a b)"
  using assms
  by (auto simp: parse_interval_def overlap_test_def spec_overlap_def
      split: sum.splits option.splits prod.splits)

lemma parse_interval_nonempty: "parse_interval p = Some a \<Longrightarrow> p \<noteq> []"
  by (auto simp: parse_interval_def fields3_def py_split_def)

lemma overlaps_loop_pending:
  assumes "parse_interval p \<noteq> None" "\<forall>l \<in> set rest. parse_interval l \<noteq> None"
  shows "overlaps_loop (Some p) rest written =
         Inr (written @ resolver_spec (\<lambda>l. the (parse_interval l)) p rest)"
  using assms
proof (induction rest arbitrary: p written)
  case Nil
  then show ?case by simp
next
  case (Cons l rest)
  from Cons.prems obtain a b
    where a: "parse_interval p = Some a" and b: "parse_interval l = Some b"
    by auto
  have ne: "p \<noteq> []" using a by (rule parse_interval_nonempty)
  have ot: "overlap_test p l = Inr (spec_overlap a b)"
    using a b by (rule overlap_test_parsed)
  have ih: "\<And>w. overlaps_loop (Some l) rest w =
              Inr (w @ resolver_spec (\<lambda>l. the (parse_interval l)) l rest)"
    using Cons.IH[of l] Cons.prems b by simp
  show ?case
    by (cases "spec_overlap a b") (simp_all add: ne ot ih a b)
qed

lemma resolver_spec_pairs:
  "resolver_spec iv p rs =
   map fst (filter (\<lambda>(a, b). \<not> spec_overlap (iv a) (iv b)) (zip (p # rs) rs)) @ [last (p # rs)]"
  by (induction rs arbitrary: p) auto

text \<open>
  Claim C4. On a non-empty input whose lines all carry a chromosome and two integers, the
  scan of \<open>_remove_overlaps\<close> completes and writes exactly what the specification's
  pending-record scan emits: a pending record is dropped when the incoming record is on
  the same chromosome and starts before the pending one ends, it is emitted otherwise, and
  the last pending record is always emitted. Equivalently, a record other than the last
  is kept exactly when it does not overlap its successor. On the three records
  (chr1,100,200), (chr1,150,300), (chr1,300,400) the result is the last two.
\<close>

theorem remove_overlaps_scan:
  assumes "in_lines \<noteq> []" and "\<forall>l \<in> set in_lines. parse_interval l \<noteq> None"
  shows "remove_overlaps_lines in_lines =
           Inr (resolver_spec (\<lambda>l. the (parse_interval l)) (hd in_lines) (tl in_lines))
         \<and> resolver_spec (\<lambda>l. the (parse_interval l)) (hd in_lines) (tl in_lines) =
             map fst (filter (\<lambda>(a, b). \<not> spec_overlap (the (parse_interval a)) (the (parse_interval b)))
                        (zip in_lines (tl in_lines))) @ [last in_lines]
         \<and> resolver_spec id (''chr1'', 100, 200) [(''chr1'', 150, 300), (''chr1'', 300, 400)] =
             [(''chr1'', 150, 300), (''chr1'', 300, 400)]"
proof -
  obtain p rest where ls: "in_lines = p # rest"
    using assms(1) by (cases in_lines) auto
  have "overlaps_loop (Some p) rest [] =
          Inr ([] @ resolver_spec (\<lambda>l. the (parse_interval l)) p rest)"
    using assms(2) unfolding ls by (intro overlaps_loop_pending) auto
  then have scan: "remove_overlaps_lines in_lines =
      Inr (resolver_spec (\<lambda>l. the (parse_interval l)) (hd in_lines) (tl in_lines))"
    by (simp add: remove_overlaps_lines_def ls)
  have pairs: "resolver_spec (\<lambda>l. the (parse_interval l)) (hd in_lines) (tl in_lines) =
      map fst (filter (\<lambda>(a, b). \<not> spec_overlap (the (parse_interval a)) (the (parse_interval b)))
                 (zip in_lines (tl in_lines))) @ [last in_lines]"
    unfolding ls using resolver_spec_pairs[of "\<lambda>l. the (parse_interval l)" p rest] by simp
  have ex: "resolver_spec id (''chr1'', 100, 200) [(''chr1'', 150, 300), (''chr1'', 300, 400)] =
             [(''chr1'', 150, 300), (''chr1'', 300, 400)]"
    by (simp add: spec_overlap_def)
  show ?thesis using scan pairs ex by blast
qed

theorem remove_overlaps_scan_witness:
  "[bed_line ''chr1'' ''100'' ''200'', bed_line ''chr1'' ''150'' ''300'',
    bed_line ''chr1'' ''300'' ''400''] \<noteq> []
   \<and> map parse_interval
       [bed_line ''chr1'' ''100'' ''200'', bed_line ''chr1'' ''150'' ''300'',
        bed_line ''chr1'' ''300'' ''400''] =
       [Some (''chr1'', 100, 200), Some (''chr1'', 150, 300), Some (''chr1'', 300, 400)]
   \<and> remove_overlaps_lines
       [bed_line ''chr1'' ''100'' ''200'', bed_line ''chr1'' ''150'' ''300'',
        bed_line ''chr1'' ''300'' ''400''] =
       Inr [bed_line ''chr1'' ''150'' ''300'', bed_line ''chr1'' ''300'' ''400'']"
proof -
  let ?ls = "[bed_line ''chr1'' ''100'' ''200'', bed_line ''chr1'' ''150'' ''300'',
              bed_line ''chr1'' ''300'' ''400'']"
  have ne: "?ls \<noteq> []" by simp
  have ps: "map parse_interval ?ls =
       [Some (''chr1'', 100, 200), Some (''chr1'', 150, 300), Some (''chr1'', 300, 400)]"
    by code_simp
  have wf: "\<forall>l \<in> set ?ls. parse_interval l \<noteq> None"
    using ps by simp
  have ev: "resolver_spec (\<lambda>l. the (parse_interval l)) (hd ?ls) (tl ?ls) =
      [bed_line ''chr1'' ''150'' ''300'', bed_line ''chr1'' ''300'' ''400'']"
    using ps by (simp add: spec_overlap_def)
  from remove_overlaps_scan[OF ne wf] have "remove_overlaps_lines ?ls =
      Inr (resolver_spec (\<lambda>l. the (parse_interval l)) (hd ?ls) (tl ?ls))"
    by blast
  with ev have "remove_overlaps_lines ?ls =
      Inr [bed_line ''chr1'' ''150'' ''300'', bed_line ''chr1'' ''300'' ''400'']"
    by simp
  then show ?thesis using ne ps by blast
qed

text \<open>
  Claim C8. On an empty input no pending line is ever held, so the unconditional write
  after the loop is \<open>write(None)\<close>: the scan raises \<open>TypeError\<close> and writes nothing,
  rather than producing an empty output.
\<close>

theorem remove_overlaps_empty_input:
  "remove_overlaps_lines [] = Inl TypeError
   \<and> remove_overlaps_lines [] \<noteq> Inr []
   \<and> overlaps_loop None [] [] = Inl TypeError"
  by (simp add: remove_overlaps_lines_def)

section \<open>Properties of the batch grouper\<close>

lemma groups_get_update:
  "groups_get (AList.update k v bg) k' = (if k' = k then v else groups_get bg k')"
  by (simp add: groups_get_def update_conv')

lemma group_loop_step_tag:
  "check_fn (h d) \<Longrightarrow> tag_of (h d) = Some b \<Longrightarrow>
   group_loop h check_fn (d # rest) bg extras =
   group_loop h check_fn rest (AList.update b (groups_get bg b @ [d]) bg) extras"
  by (auto simp: tag_of_def split: option.splits list.splits)

lemma group_loop_step_untagged:
  "check_fn (h d) \<Longrightarrow> tag_of (h d) = None \<Longrightarrow>
   group_loop h check_fn (d # rest) bg extras =
   (case name_last (h d) of
      Inl e \<Rightarrow> Inl e
    | Inr k \<Rightarrow> (if map_of bg k \<noteq> None then Inl AssertionError
               else group_loop h check_fn rest (AList.update k [d] bg) extras))"
  by (auto simp: tag_of_def split: option.splits list.splits)

lemma group_loop_step_extra:
  "\<not> check_fn (h d) \<Longrightarrow>
   group_loop h check_fn (d # rest) bg extras = group_loop h check_fn rest bg (extras @ [[d]])"
  by simp

lemma group_loop_groups:
  "group_loop h check_fn ds bg extras = Inr (bg', extras') \<Longrightarrow>
   groups_get bg' k = groups_get bg k @ filter (\<lambda>d. check_fn (h d) \<and> batch_key (h d) = Inr k) ds
   \<and> extras' = extras @ map (\<lambda>d. [d]) (filter (\<lambda>d. \<not> check_fn (h d)) ds)"
proof (induction ds arbitrary: bg extras)
  case Nil
  then show ?case by simp
next
  case (Cons d rest)
  show ?case
  proof (cases "check_fn (h d)")
    case False
    with Cons.prems have "group_loop h check_fn rest bg (extras @ [[d]]) = Inr (bg', extras')"
      by simp
    from Cons.IH[OF this] False show ?thesis by simp
  next
    case True
    show ?thesis
    proof (cases "tag_of (h d)")
      case (Some b)
      with True Cons.prems have
        "group_loop h check_fn rest (AList.update b (groups_get bg b @ [d]) bg) extras = Inr (bg', extras')"
        by (simp add: group_loop_step_tag del: group_loop.simps)
      from Cons.IH[OF this] True Some show ?thesis
        by (auto simp: groups_get_update batch_key_def)
    next
      case None
      with True Cons.prems obtain k where k: "name_last (h d) = Inr k" "map_of bg k = None"
        and run: "group_loop h check_fn rest (AList.update k [d] bg) extras = Inr (bg', extras')"
        by (auto simp: group_loop_step_untagged simp del: group_loop.simps split: sum.splits if_splits)
      from k have "groups_get bg k = []" by (simp add: groups_get_def)
      with Cons.IH[OF run] True None k show ?thesis
        by (auto simp: groups_get_update batch_key_def)
    qed
  qed
qed

lemma group_loop_keys:
  "group_loop h check_fn ds bg extras = Inr (bg', extras') \<Longrightarrow>
   (map_of bg' k \<noteq> None) =
   (map_of bg k \<noteq> None \<or> (\<exists>d \<in> set ds. check_fn (h d) \<and> batch_key (h d) = Inr k))"
proof (induction ds arbitrary: bg extras)
  case Nil
  then show ?case by simp
next
  case (Cons d rest)
  show ?case
  proof (cases "check_fn (h d)")
    case False
    with Cons.prems have "group_loop h check_fn rest bg (extras @ [[d]]) = Inr (bg', extras')"
      by simp
    from Cons.IH[OF this] False show ?thesis by simp
  next
    case True
    show ?thesis
    proof (cases "tag_of (h d)")
      case (Some b)
      with True Cons.prems have
        "group_loop h check_fn rest (AList.update b (groups_get bg b @ [d]) bg) extras = Inr (bg', extras')"
        by (simp add: group_loop_step_tag del: group_loop.simps)
      from Cons.IH[OF this] True Some show ?thesis
        by (auto simp: update_conv' batch_key_def)
    next
      case None
      with True Cons.prems obtain k' where k: "name_last (h d) = Inr k'" "map_of bg k' = None"
        and run: "group_loop h check_fn rest (AList.update k' [d] bg) extras = Inr (bg', extras')"
        by (auto simp: group_loop_step_untagged simp del: group_loop.simps split: sum.splits if_splits)
      with Cons.IH[OF run] True None k show ?thesis
        by (auto simp: update_conv' batch_key_def)
    qed
  qed
qed



lemmas ex_defs = heap_of_def sample_of_def two_calls_def call_of_def batch_of_def name_last_def
  groups_get_def has_ensemble_def is_not_none_def tag_of_def batch_key_def group_by_batches_def



lemma group_loop_append:
  "group_loop h check_fn (xs @ ys) bg extras =
   (case group_loop h check_fn xs bg extras of
      Inl e \<Rightarrow> Inl e
    | Inr (bg1, extras1) \<Rightarrow> group_loop h check_fn ys bg1 extras1)"
proof (induction xs arbitrary: bg extras)
  case Nil
  then show ?case by simp
next
  case (Cons d rest)
  show ?case
  proof (cases "check_fn (h d)")
    case False
    then show ?thesis using Cons.IH by simp
  next
    case True
    show ?thesis
    proof (cases "tag_of (h d)")
      case (Some b)
      with True show ?thesis
        using Cons.IH by (simp add: group_loop_step_tag del: group_loop.simps)
    next
      case None
      with True show ?thesis
        using Cons.IH
        by (simp add: group_loop_step_untagged del: group_loop.simps split: sum.splits)
    qed
  qed
qed

lemma group_loop_errors:
  "group_loop h check_fn ds bg extras = Inl e \<Longrightarrow>
   e = AssertionError \<or> (e = IndexError \<and> (\<exists>x \<in> set ds. name (h x) = []))"
proof (induction ds arbitrary: bg extras)
  case Nil
  then show ?case by simp
next
  case (Cons d rest)
  show ?case
  proof (cases "check_fn (h d)")
    case False
    with Cons.prems have "group_loop h check_fn rest bg (extras @ [[d]]) = Inl e" by simp
    from Cons.IH[OF this] show ?thesis by auto
  next
    case True
    show ?thesis
    proof (cases "tag_of (h d)")
      case (Some b)
      with True Cons.prems have
        "group_loop h check_fn rest (AList.update b (groups_get bg b @ [d]) bg) extras = Inl e"
        by (simp add: group_loop_step_tag del: group_loop.simps)
      from Cons.IH[OF this] show ?thesis by auto
    next
      case None
      show ?thesis
      proof (cases "name_last (h d)")
        case (Inl e')
        then have "e' = IndexError" "name (h d) = []"
          by (auto simp: name_last_def split: if_splits)
        with Inl True None Cons.prems show ?thesis
          by (simp add: group_loop_step_untagged del: group_loop.simps)
      next
        case (Inr k)
        show ?thesis
        proof (cases "map_of bg k = None")
          case False
          with Inr True None Cons.prems show ?thesis
            by (auto simp add: group_loop_step_untagged simp del: group_loop.simps)
        next
          case nk: True
          with Inr True None Cons.prems have
            "group_loop h check_fn rest (AList.update k [d] bg) extras = Inl e"
            by (simp add: group_loop_step_untagged del: group_loop.simps)
          from Cons.IH[OF this] show ?thesis by auto
        qed
      qed
    qed
  qed
qed

lemma group_loop_collision:
  assumes "check_fn (h d)" "tag_of (h d) = None" "name_last (h d) = Inr k"
    and "d' \<in> set pre" "check_fn (h d')" "batch_key (h d') = Inr k"
  shows "\<exists>e. group_loop h check_fn (pre @ d # post) bg extras = Inl e \<and>
             (e = AssertionError \<or> (e = IndexError \<and> (\<exists>x \<in> set pre. name (h x) = [])))"
proof (cases "group_loop h check_fn pre bg extras")
  case (Inl e)
  then have "group_loop h check_fn (pre @ d # post) bg extras = Inl e"
    by (simp add: group_loop_append)
  with group_loop_errors[OF Inl] show ?thesis by blast
next
  case (Inr r)
  obtain bg1 extras1 where r: "r = (bg1, extras1)" by (cases r)
  from group_loop_keys[OF Inr[unfolded r], of k] assms(4,5,6)
  have "map_of bg1 k \<noteq> None" by blast
  then have "group_loop h check_fn (d # post) bg1 extras1 = Inl AssertionError"
    using assms(1,2,3) by (simp add: group_loop_step_untagged del: group_loop.simps)
  then show ?thesis using Inr r by (simp add: group_loop_append)
qed

text \<open>
  Claim C6, as the code has it. The grouper checks for a collision only when it reaches a
  qualifying sample without a tag: if a group with that sample's identity as key already
  exists then, whether an earlier sample was tagged with that name or had the same
  identity, the assertion fails and the grouping aborts. (Another exception can come
  first only from an earlier sample whose name sequence is empty.)
\<close>

theorem group_by_batches_collision:
  assumes "first_items samples = Inr (pre @ d # post)"
    and "check_fn (h d)" "tag_of (h d) = None" "name_last (h d) = Inr k"
    and "d' \<in> set pre" "check_fn (h d')" "batch_key (h d') = Inr k"
  shows "(group_by_batches h samples check_fn = Inl AssertionError
          \<or> group_by_batches h samples check_fn = Inl IndexError)
       \<and> ((\<forall>x \<in> set pre. name (h x) \<noteq> []) \<longrightarrow>
            group_by_batches h samples check_fn = Inl AssertionError)"
proof -
  have eq: "group_by_batches h samples check_fn = group_loop h check_fn (pre @ d # post) [] []"
    using assms(1) by (simp add: group_by_batches_def)
  from group_loop_collision[OF assms(2-7), of post "[]" "[]"] eq
  show ?thesis by auto
qed

theorem group_by_batches_collision_witness:
  "first_items [[0], [1]] = Inr ([0] @ 1 # [])
   \<and> has_ensemble (clash_later_heap 1) \<and> tag_of (clash_later_heap 1) = None
   \<and> name_last (clash_later_heap 1) = Inr ''C''
   \<and> has_ensemble (clash_later_heap 0) \<and> batch_key (clash_later_heap 0) = Inr ''C''
   \<and> group_by_batches clash_later_heap [[0], [1]] has_ensemble = Inl AssertionError"
proof -
  have a: "first_items [[0], [1]] = Inr ([0] @ 1 # [])" by simp
  have b: "has_ensemble (clash_later_heap 1)" "tag_of (clash_later_heap 1) = None"
    "name_last (clash_later_heap 1) = Inr ''C''"
    "has_ensemble (clash_later_heap 0)" "batch_key (clash_later_heap 0) = Inr ''C''"
    by (simp_all add: clash_later_heap_def ex_defs)
  have c: "(0::nat) \<in> set [0]" by simp
  have n: "\<forall>x \<in> set [0::nat]. name (clash_later_heap x) \<noteq> []"
    by (simp add: clash_later_heap_def ex_defs)
  from group_by_batches_collision[OF a b(1,2,3) c b(4,5)] n
  have "group_by_batches clash_later_heap [[0], [1]] has_ensemble = Inl AssertionError"
    by blast
  then show ?thesis using a b by blast
qed

text \<open>
  The claim as stated fails when the untagged sample comes first: the samples tagged
  with its identity are appended to its group and the grouping returns.
\<close>

theorem group_by_batches_collision_undetected:
  "has_ensemble (clash_first_heap 0) \<and> has_ensemble (clash_first_heap 1)
   \<and> tag_of (clash_first_heap 0) = None \<and> name_last (clash_first_heap 0) = Inr ''C''
   \<and> tag_of (clash_first_heap 1) = Some ''C''
   \<and> group_by_batches clash_first_heap [[0], [1]] has_ensemble = Inr ([(''C'', [0, 1])], [])"
  by (simp add: clash_first_heap_def ex_defs)

lemma group_loop_distinct:
  "group_loop h check_fn ds bg extras = Inr (bg', extras') \<Longrightarrow> distinct (map fst bg) \<Longrightarrow>
   distinct (map fst bg')"
proof (induction ds arbitrary: bg extras)
  case Nil
  then show ?case by simp
next
  case (Cons d rest)
  show ?case
  proof (cases "check_fn (h d)")
    case False
    with Cons.prems have "group_loop h check_fn rest bg (extras @ [[d]]) = Inr (bg', extras')"
      by simp
    from Cons.IH[OF this Cons.prems(2)] show ?thesis .
  next
    case True
    show ?thesis
    proof (cases "tag_of (h d)")
      case (Some b)
      with True Cons.prems have run:
        "group_loop h check_fn rest (AList.update b (groups_get bg b @ [d]) bg) extras = Inr (bg', extras')"
        by (simp add: group_loop_step_tag del: group_loop.simps)
      show ?thesis
        by (rule Cons.IH[OF run]) (simp add: distinct_update Cons.prems(2))
    next
      case None
      with True Cons.prems obtain k where
        run: "group_loop h check_fn rest (AList.update k [d] bg) extras = Inr (bg', extras')"
        by (auto simp: group_loop_step_untagged simp del: group_loop.simps split: sum.splits if_splits)
      show ?thesis
        by (rule Cons.IH[OF run]) (simp add: distinct_update Cons.prems(2))
    qed
  qed
qed

lemma group_members_qualify:
  assumes "group_by_batches h samples check_fn = Inr (bg, extras)" "(k, xs) \<in> set bg" "d \<in> set xs"
  shows "check_fn (h d)"
proof -
  from assms(1) obtain ds where ds: "first_items samples = Inr ds"
    and run: "group_loop h check_fn ds [] [] = Inr (bg, extras)"
    by (auto simp: group_by_batches_def split: sum.splits)
  have "distinct (map fst bg)" using group_loop_distinct[OF run] by simp
  with assms(2) have "map_of bg k = Some xs" by simp
  then have "groups_get bg k = xs" by (simp add: groups_get_def)
  with group_loop_groups[OF run, of k] assms(3) show ?thesis
    by (auto simp: groups_get_def)
qed

lemma groups_get_qualify:
  assumes "group_by_batches h samples check_fn = Inr (bg, extras)" "d \<in> set (groups_get bg k)"
  shows "check_fn (h d)"
proof -
  from assms(1) obtain ds where ds: "first_items samples = Inr ds"
    and run: "group_loop h check_fn ds [] [] = Inr (bg, extras)"
    by (auto simp: group_by_batches_def split: sum.splits)
  with group_loop_groups[OF run, of k] assms(2) show ?thesis
    by (auto simp: groups_get_def)
qed

text \<open>
  Claim C10. \<open>_has_ensemble\<close> holds exactly for a sample with more than one element in
  \<open>variants\<close>, at least one of them with a non-null \<open>vrn_file\<close> or \<open>vrn_file_batch\<close>,
  and \<open>ensemble\<close> configured. So whenever the grouping under \<open>_has_ensemble\<close> returns, a
  sample with one call result or none is in the residual list and in no batch group.
\<close>

theorem has_ensemble_needs_two_calls:
  assumes "group_by_batches h samples has_ensemble = Inr (bg, extras)"
    and "first_items samples = Inr ds" and "d \<in> set ds" and "length (variants (h d)) \<le> 1"
  shows "\<not> has_ensemble (h d) \<and> [d] \<in> set extras
         \<and> (\<forall>k. d \<notin> set (groups_get bg k))
         \<and> (\<forall>k xs. (k, xs) \<in> set bg \<longrightarrow> d \<notin> set xs)
         \<and> (\<forall>data. has_ensemble data =
               (1 < length (variants data)
                \<and> (\<exists>x \<in> set (variants data). is_not_none (vrn_file x) \<or> is_not_none (vrn_file_batch x))
                \<and> algorithm_ensemble data \<noteq> None))"
proof -
  have iff: "\<forall>data. has_ensemble data =
               (1 < length (variants data)
                \<and> (\<exists>x \<in> set (variants data). is_not_none (vrn_file x) \<or> is_not_none (vrn_file_batch x))
                \<and> algorithm_ensemble data \<noteq> None)"
    by (auto simp: has_ensemble_def list_ex_iff)
  have nq: "\<not> has_ensemble (h d)" using assms(4) iff by auto
  from assms(1,2) have run: "group_loop h has_ensemble ds [] [] = Inr (bg, extras)"
    by (simp add: group_by_batches_def)
  have "extras = map (\<lambda>d. [d]) (filter (\<lambda>d. \<not> has_ensemble (h d)) ds)"
    using group_loop_groups[OF run] by simp
  then have ex: "[d] \<in> set extras" using nq assms(3) by auto
  have g1: "\<forall>k. d \<notin> set (groups_get bg k)"
    using groups_get_qualify[OF assms(1)] nq by blast
  have g2: "\<forall>k xs. (k, xs) \<in> set bg \<longrightarrow> d \<notin> set xs"
    using group_members_qualify[OF assms(1)] nq by blast
  show ?thesis using nq ex g1 g2 iff by blast
qed

theorem has_ensemble_needs_two_calls_witness:
  "group_by_batches one_call_heap [[0], [1]] has_ensemble = Inr ([(''fam1'', [0])], [[1]])
   \<and> first_items [[0], [1]] = Inr [0, 1] \<and> (1::nat) \<in> set [0, 1]
   \<and> length (variants (one_call_heap 1)) \<le> 1
   \<and> \<not> has_ensemble (one_call_heap 1) \<and> [1] \<in> set [[1::nat]]
   \<and> 1 \<notin> set (groups_get [(''fam1'', [0])] ''fam1'')"
proof -
  have run: "group_by_batches one_call_heap [[0], [1]] has_ensemble = Inr ([(''fam1'', [0])], [[1]])"
    by (simp add: one_call_heap_def ex_defs)
  have fi: "first_items [[0], [1]] = Inr [0, 1]" by simp
  have m: "(1::nat) \<in> set [0, 1]" by simp
  have l: "length (variants (one_call_heap 1)) \<le> 1"
    by (simp add: one_call_heap_def ex_defs)
  from has_ensemble_needs_two_calls[OF run fi m l] run fi m l show ?thesis by simp
qed

section \<open>Properties of the parallel combine step\<close>





section \<open>Properties of the multi-caller merger\<close>

lemmas prog_defs = then_do_def ret_def throw_def with_files_def external_def

lemmas merger_ex_defs = sample_of_def call_of_def is_tumor_def startswith_def
  py_lower_def lower_char_def organize_variants_def organize_variant_def add_bam_def
  tumor_only_name_def py_replace_def select_sample_def get_multisample_vcf_def calls_get_def
  quiet_env_def no_files_def prog_defs Let_def

text \<open>
  Claim C9, as the code has it. For a tumor sample, a result file whose path contains
  \<open>.vcf\<close> gets the suffix-tagged name (each \<open>.vcf\<close> replaced by
  \<open>_tumorOnly_noFilteredCalls.vcf\<close>) and the filtered file is what is contributed for its
  caller. A result file whose path does not contain \<open>.vcf\<close> makes the step raise
  \<open>UnboundLocalError\<close>, contributing nothing and starting no external step, when the
  temporary name has not been assigned before in the same call; this is so in particular
  for the first result of the first sample of the batch.
\<close>

theorem tumor_only_filtering:
  assumes "is_tumor data" and "vrn_file vrn = Some (Path p)"
  shows "(contains ''.vcf'' p \<and> 2 \<le> length (name data) \<and>
          effect E (SelectSample p (name data ! 1)
                      (py_replace p ''.vcf'' ''_tumorOnly_noFilteredCalls.vcf'')) (files w) = Some fs'
          \<longrightarrow> organize_variant E data vrn st w =
                (Inr (st\<lparr>calls := AList.update (variantcaller vrn)
                           (calls_get (calls st) (variantcaller vrn) @
                              [Path (py_replace p ''.vcf'' ''_tumorOnly_noFilteredCalls.vcf'')])
                           (calls st),
                         vrn_file_temp := Some (py_replace p ''.vcf'' ''_tumorOnly_noFilteredCalls.vcf'')\<rparr>),
                 \<lparr>files = fs',
                  trace = trace w @ [SelectSample p (name data ! 1)
                      (py_replace p ''.vcf'' ''_tumorOnly_noFilteredCalls.vcf'')]\<rparr>))
       \<and> (\<not> contains ''.vcf'' p \<and> vrn_file_temp st = None
          \<longrightarrow> organize_variant E data vrn st w = (Inl UnboundLocalError, w))
       \<and> (\<not> contains ''.vcf'' p \<and> variants data = vrn # vs
          \<longrightarrow> organize_variants E (data # rest) batch_id w = (Inl UnboundLocalError, w))"
proof -
  have a: "\<not> contains ''.vcf'' p \<Longrightarrow> vrn_file_temp st = None \<Longrightarrow>
           organize_variant E data vrn st w = (Inl UnboundLocalError, w)" for st
    using assms by (simp add: organize_variant_def tumor_only_name_def prog_defs)
  have b: "\<not> contains ''.vcf'' p \<Longrightarrow> variants data = vrn # vs \<Longrightarrow>
           organize_variants E (data # rest) batch_id w = (Inl UnboundLocalError, w)"
  proof -
    assume n: "\<not> contains ''.vcf'' p" and v: "variants data = vrn # vs"
    have "vrn_file_temp (add_bam data \<lparr>bam_files = [], calls = [], vrn_file_temp = None\<rparr>) = None"
      by (simp add: add_bam_def split: option.splits)
    from a[OF n this] show ?thesis
      by (simp add: organize_variants_def v then_do_def Let_def)
  qed
  have c: "contains ''.vcf'' p \<Longrightarrow> 2 \<le> length (name data) \<Longrightarrow>
          effect E (SelectSample p (name data ! 1)
                      (py_replace p ''.vcf'' ''_tumorOnly_noFilteredCalls.vcf'')) (files w) = Some fs'
          \<Longrightarrow> organize_variant E data vrn st w =
                (Inr (st\<lparr>calls := AList.update (variantcaller vrn)
                           (calls_get (calls st) (variantcaller vrn) @
                              [Path (py_replace p ''.vcf'' ''_tumorOnly_noFilteredCalls.vcf'')])
                           (calls st),
                         vrn_file_temp := Some (py_replace p ''.vcf'' ''_tumorOnly_noFilteredCalls.vcf'')\<rparr>),
                 \<lparr>files = fs',
                  trace = trace w @ [SelectSample p (name data ! 1)
                      (py_replace p ''.vcf'' ''_tumorOnly_noFilteredCalls.vcf'')]\<rparr>)"
    using assms
    by (simp add: organize_variant_def tumor_only_name_def select_sample_def prog_defs)
  show ?thesis using a b c by blast
qed

theorem tumor_only_filtering_witness:
  "is_tumor tumor_bcf
   \<and> vrn_file (call_of ''freebayes'' ''T-freebayes.bcf'') = Some (Path ''T-freebayes.bcf'')
   \<and> \<not> contains ''.vcf'' ''T-freebayes.bcf''
   \<and> variants tumor_bcf = call_of ''freebayes'' ''T-freebayes.bcf'' # [call_of ''gatk'' ''T-gatk.vcf'']
   \<and> organize_variants quiet_env (tumor_bcf # []) ''pair1'' no_files = (Inl UnboundLocalError, no_files)"
proof -
  have t: "is_tumor tumor_bcf"
    by (simp add: tumor_bcf_def merger_ex_defs)
  have f: "vrn_file (call_of ''freebayes'' ''T-freebayes.bcf'') = Some (Path ''T-freebayes.bcf'')"
    by (simp add: call_of_def)
  have n: "\<not> contains ''.vcf'' ''T-freebayes.bcf''" by simp
  have v: "variants tumor_bcf = call_of ''freebayes'' ''T-freebayes.bcf'' # [call_of ''gatk'' ''T-gatk.vcf'']"
    by (simp add: tumor_bcf_def sample_of_def)
  from tumor_only_filtering[OF t f, where vs="[call_of ''gatk'' ''T-gatk.vcf'']" and E=quiet_env
      and rest="[]" and batch_id="''pair1''" and w=no_files] n v
  have "organize_variants quiet_env (tumor_bcf # []) ''pair1'' no_files = (Inl UnboundLocalError, no_files)"
    by blast
  with t f n v show ?thesis by blast
qed

text \<open>
  The claim as stated fails for a later result: the temporary name is a local of the whole
  function, so after a first result with a \<open>.vcf\<close> path a second one without it does not
  fail; the name of the first result's output is read and extended.
\<close>

theorem tumor_only_filtering_stale_name:
  "is_tumor tumor_mixed
  \<and> vrn_file (variants tumor_mixed ! 1) = Some (Path ''T-freebayes.bcf'')
  \<and> \<not> contains ''.vcf'' ''T-freebayes.bcf''
  \<and> fst (organize_variants quiet_env [tumor_mixed] ''pair1'' no_files) =
      Inr ([''gatk'', ''freebayes''],
           [Path ''T-gatk_tumorOnly_noFilteredCalls.vcf'',
            Path ''T-gatk_tumorOnly_noFilteredCalls.vcf_tumorOnly_noFilteredCalls.vcf.gz''],
           [Path ''T.bam''])
  \<and> trace (snd (organize_variants quiet_env [tumor_mixed] ''pair1'' no_files)) =
      [SelectSample ''T-gatk.vcf'' ''T'' ''T-gatk_tumorOnly_noFilteredCalls.vcf'',
       SelectSample ''T-freebayes.bcf'' ''T''
         ''T-gatk_tumorOnly_noFilteredCalls.vcf_tumorOnly_noFilteredCalls.vcf.gz'']"
  by (simp add: tumor_mixed_def merger_ex_defs)





lemma calls_add_bam [simp]: "calls (add_bam data st) = calls st"
  by (simp add: add_bam_def split: option.splits)








section \<open>Properties of the consensus builder\<close>

lemmas consensus_defs = run_ensemble_def bcbio_variation_ensemble_def safe_makedir_def
  symlink_plus_def ensemble_vcf_def













lemma extends_after:
  assumes "extends_trace p" "length (trace w) \<ge> n"
  shows "take n (trace (snd (p w))) = take n (trace w)"
proof -
  from assms(1) obtain new where "trace (snd (p w)) = trace w @ new"
    by (auto simp: extends_trace_def dest: spec[of _ w])
  with assms(2) show ?thesis by simp
qed









end
